theory Spec2Isabelle
  imports Complex_Main
begin

section \<open>Python strings\<close>

text \<open>
  A Python \<open>str\<close> is modelled as a \<^typ>\<open>string\<close>, one \<^typ>\<open>char\<close> per code point, so
  the model covers the code points below 256. The character classes are Python's,
  restricted to that range: \<open>str.isspace\<close> (which is also what \<open>str.strip()\<close> and the
  pattern \<open>\s\<close> use) holds of the code points 9 to 13, 28 to 32, 133 and 160, and \<open>\d\<close>
  holds of the ten ASCII digits only. \<open>str.upper\<close> maps each small letter of that range to
  its capital, the sharp s (223) to \<open>SS\<close>, and keeps every other character; the two
  letters whose capital lies beyond code point 255, the micro sign (181) and the y with
  diaeresis (255), are kept as they are, which is where the model departs from Python.
\<close>

definition newline :: char where
  "newline = CHR 0x0A"

definition isspace :: "char \<Rightarrow> bool" where
  "isspace c =
     (let n = (of_char c :: nat)
      in (9 \<le> n \<and> n \<le> 13) \<or> (28 \<le> n \<and> n \<le> 32) \<or> n = 133 \<or> n = 160)"

definition isdigit :: "char \<Rightarrow> bool" where
  "isdigit c = (let n = (of_char c :: nat) in 48 \<le> n \<and> n \<le> 57)"

definition upper_char :: "char \<Rightarrow> string" where
  "upper_char c =
     (if c = CHR 0xDF then ''SS''
      else (case map_of (zip
                (''abcdefghijklmnopqrstuvwxyz'' @
                 [CHR 0xE0, CHR 0xE1, CHR 0xE2, CHR 0xE3, CHR 0xE4, CHR 0xE5, CHR 0xE6, CHR 0xE7,
                  CHR 0xE8, CHR 0xE9, CHR 0xEA, CHR 0xEB, CHR 0xEC, CHR 0xED, CHR 0xEE, CHR 0xEF,
                  CHR 0xF0, CHR 0xF1, CHR 0xF2, CHR 0xF3, CHR 0xF4, CHR 0xF5, CHR 0xF6,
                  CHR 0xF8, CHR 0xF9, CHR 0xFA, CHR 0xFB, CHR 0xFC, CHR 0xFD, CHR 0xFE])
                (''ABCDEFGHIJKLMNOPQRSTUVWXYZ'' @
                 [CHR 0xC0, CHR 0xC1, CHR 0xC2, CHR 0xC3, CHR 0xC4, CHR 0xC5, CHR 0xC6, CHR 0xC7,
                  CHR 0xC8, CHR 0xC9, CHR 0xCA, CHR 0xCB, CHR 0xCC, CHR 0xCD, CHR 0xCE, CHR 0xCF,
                  CHR 0xD0, CHR 0xD1, CHR 0xD2, CHR 0xD3, CHR 0xD4, CHR 0xD5, CHR 0xD6,
                  CHR 0xD8, CHR 0xD9, CHR 0xDA, CHR 0xDB, CHR 0xDC, CHR 0xDD, CHR 0xDE])) c of
              Some u \<Rightarrow> [u]
            | None \<Rightarrow> [c]))"

definition upper :: "string \<Rightarrow> string" where
  "upper s = concat (map upper_char s)"

text \<open>\<open>s.strip()\<close>: the whitespace at both ends is removed.\<close>

definition strip :: "string \<Rightarrow> string" where
  "strip s = rev (dropWhile isspace (rev (dropWhile isspace s)))"

text \<open>
  \<open>s.split(sep)\<close> for a one-character separator: the pieces between the separators, in
  order; the empty string gives one empty piece.
\<close>

fun str_split :: "char \<Rightarrow> string \<Rightarrow> string list" where
  "str_split sep [] = [[]]"
| "str_split sep (c # cs) =
     (if c = sep then [] # str_split sep cs
      else (case str_split sep cs of [] \<Rightarrow> [[c]] | l # ls \<Rightarrow> (c # l) # ls))"

text \<open>
  \<open>s.split()\<close> without a separator: the maximal runs of characters that are not
  whitespace. The first argument is the run read so far.
\<close>

fun split_words :: "string \<Rightarrow> string \<Rightarrow> string list" where
  "split_words w [] = (if w = [] then [] else [w])"
| "split_words w (c # cs) =
     (if isspace c then (if w = [] then split_words [] cs else w # split_words [] cs)
      else split_words (w @ [c]) cs)"

text \<open>\<open>s.replace(old, new)\<close> where both arguments are one character long.\<close>

definition replace :: "char \<Rightarrow> char \<Rightarrow> string \<Rightarrow> string" where
  "replace old new s = map (\<lambda>c. if c = old then new else c) s"


section \<open>The heading pattern\<close>

text \<open>
  \<open>re.match(r'^(\d+(\.\d+)*)\s*(.*?):$', clean_line)\<close> is a backtracking search. Each
  piece of the pattern is modelled by the list of the ways it can match at the front of a
  string, as pairs (matched text, remaining text), in the order in which the search tries
  them: a greedy repetition tries the longest match first, the lazy one the shortest. The
  match object is the first way in which the whole pattern matches.
\<close>

type_synonym alternatives = "(string \<times> string) list"

definition consume :: "char \<Rightarrow> alternatives \<Rightarrow> alternatives" where
  "consume c alts = map (\<lambda>(m, r). (c # m, r)) alts"

text \<open>\<open>\s*\<close> and the like: a greedy repetition of one character class.\<close>

fun greedy_plus :: "(char \<Rightarrow> bool) \<Rightarrow> string \<Rightarrow> alternatives" where
  "greedy_plus p [] = []"
| "greedy_plus p (c # cs) = (if p c then consume c (greedy_plus p cs) @ [([c], cs)] else [])"

definition greedy_star :: "(char \<Rightarrow> bool) \<Rightarrow> string \<Rightarrow> alternatives" where
  "greedy_star p s = greedy_plus p s @ [([], s)]"

text \<open>\<open>.*?\<close>: the lazy repetition tries the empty match first, then one character more.\<close>

fun lazy_star :: "(char \<Rightarrow> bool) \<Rightarrow> string \<Rightarrow> alternatives" where
  "lazy_star p [] = [([], [])]"
| "lazy_star p (c # cs) = ([], c # cs) # (if p c then consume c (lazy_star p cs) else [])"

text \<open>
  \<open>digit_groups\<close> is group 1, \<open>\d+(\.\d+)*\<close>, and \<open>groups_star\<close> is its tail \<open>(\.\d+)*\<close>.
  After a digit, \<open>\d+\<close> first tries to go on with more digits and only then leaves the
  rest to \<open>(\.\d+)*\<close>, which in turn first tries one more group \<open>\.\d+\<close> and only then
  stops.
\<close>

fun groups_star :: "string \<Rightarrow> alternatives"
  and digit_groups :: "string \<Rightarrow> alternatives" where
  "groups_star [] = [([], [])]"
| "groups_star (c # cs) =
     (if c = CHR ''.'' then consume c (digit_groups cs) else []) @ [([], c # cs)]"
| "digit_groups [] = []"
| "digit_groups (c # cs) =
     (if isdigit c then consume c (digit_groups cs @ groups_star cs) else [])"

text \<open>\<open>.\<close> matches every character but the line feed.\<close>

definition any_char :: "char \<Rightarrow> bool" where
  "any_char c = (c \<noteq> newline)"

text \<open>\<open>$\<close> holds at the end of the string and just before a line feed that ends it.\<close>

definition at_end :: "string \<Rightarrow> bool" where
  "at_end r = (r = [] \<or> r = [newline])"

text \<open>All the matches of the whole pattern, as pairs (group 1, group 3), in search order.\<close>

definition header_matches :: "string \<Rightarrow> (string \<times> string) list" where
  "header_matches s =
     concat (map (\<lambda>(g1, r2).
       concat (map (\<lambda>(w, r3).
         concat (map (\<lambda>(g3, r4).
           (case r4 of
              [] \<Rightarrow> []
            | c # r5 \<Rightarrow> if c = CHR '':'' \<and> at_end r5 then [(g1, g3)] else []))
           (lazy_star any_char r3)))
         (greedy_star isspace r2)))
       (digit_groups s))"

definition header_match :: "string \<Rightarrow> (string \<times> string) option" where
  "header_match s = (case header_matches s of [] \<Rightarrow> None | x # _ \<Rightarrow> Some x)"


section \<open>The document library\<close>

text \<open>
  The document is what the calls of the code to the document library build: the page
  margins and the paragraphs in the order they were added, each with its style, its runs
  and the formatting the code sets. Lengths keep their unit.
\<close>

datatype docx_length = Inches nat | Pt nat

datatype style = Title | Heading nat | Normal

datatype alignment = CENTER | JUSTIFY

datatype spacing_rule = MULTIPLE

record run =
  run_text :: string
  font_size :: "docx_length option"
  font_name :: "string option"

record block =
  par_style :: style
  runs :: "run list"
  alignment :: "alignment option"
  line_spacing_rule :: "spacing_rule option"
  line_spacing :: "real option"

record document =
  top_margin :: "docx_length option"
  bottom_margin :: "docx_length option"
  left_margin :: "docx_length option"
  right_margin :: "docx_length option"
  paragraphs :: "block list"

text \<open>
  An exception is represented by its message, \<open>str(e)\<close>, which is all the code uses of it.
  What the library raises is not decided by this program, so it is a parameter: for each
  call that the code makes, the message of the exception the call raises, if it raises.
  The theorems below hold for every such library.
\<close>

type_synonym exn = string

datatype docx_call =
    NewDocument
  | AddHeading string nat
  | AddParagraph string
  | Save document

type_synonym docx = "docx_call \<Rightarrow> exn option"

definition and_then :: "exn + 'a \<Rightarrow> ('a \<Rightarrow> exn + 'b) \<Rightarrow> exn + 'b" where
  "and_then m f = (case m of Inl e \<Rightarrow> Inl e | Inr x \<Rightarrow> f x)"

text \<open>
  The library puts the text of a new paragraph in one run, and gives a paragraph without
  text no run at all. \<open>add_heading\<close> with level 0 uses the style \<open>Title\<close>, with level
  \<open>n\<close> the style \<open>Heading n\<close>.
\<close>

definition new_paragraph :: "style \<Rightarrow> string \<Rightarrow> block" where
  "new_paragraph st txt =
     \<lparr>par_style = st,
      runs = (if txt = [] then [] else [\<lparr>run_text = txt, font_size = None, font_name = None\<rparr>]),
      alignment = None, line_spacing_rule = None, line_spacing = None\<rparr>"

definition Document :: "docx \<Rightarrow> exn + document" where
  "Document lib =
     (case lib NewDocument of
        Some e \<Rightarrow> Inl e
      | None \<Rightarrow> Inr \<lparr>top_margin = None, bottom_margin = None, left_margin = None,
                      right_margin = None, paragraphs = []\<rparr>)"

definition add_heading :: "docx \<Rightarrow> string \<Rightarrow> nat \<Rightarrow> exn + block" where
  "add_heading lib txt level =
     (case lib (AddHeading txt level) of
        Some e \<Rightarrow> Inl e
      | None \<Rightarrow> Inr (new_paragraph (if level = 0 then Title else Heading level) txt))"

definition add_paragraph :: "docx \<Rightarrow> string \<Rightarrow> exn + block" where
  "add_paragraph lib txt =
     (case lib (AddParagraph txt) of
        Some e \<Rightarrow> Inl e
      | None \<Rightarrow> Inr (new_paragraph Normal txt))"

text \<open>\<open>p.runs[0]\<close> raises IndexError when the paragraph has no run.\<close>

definition first_run :: "(run \<Rightarrow> run) \<Rightarrow> block \<Rightarrow> exn + block" where
  "first_run f p =
     (case runs p of
        [] \<Rightarrow> Inl ''list index out of range''
      | r # rs \<Rightarrow> Inr (p\<lparr>runs := f r # rs\<rparr>))"

definition save :: "docx \<Rightarrow> document \<Rightarrow> exn + document" where
  "save lib doc = (case lib (Save doc) of Some e \<Rightarrow> Inl e | None \<Rightarrow> Inr doc)"

section \<open>The document formatter\<close>

text \<open>
  A paragraph is created by one call to the library and formatted through the object
  the call returns; the model formats the new block and appends it afterwards, which
  gives the same document, since an exception discards the whole document.
\<close>

definition title_block :: "docx \<Rightarrow> string \<Rightarrow> exn + block" where
  "title_block lib topic =
     and_then (add_heading lib (upper topic) 0) (\<lambda>h.
     and_then (first_run (\<lambda>r. r\<lparr>font_size := Some (Pt 20)\<rparr>) (h\<lparr>alignment := Some CENTER\<rparr>)) (\<lambda>h.
     first_run (\<lambda>r. r\<lparr>font_name := Some ''Times New Roman''\<rparr>) h))"

definition heading_block :: "docx \<Rightarrow> string \<Rightarrow> nat \<Rightarrow> nat \<Rightarrow> exn + block" where
  "heading_block lib txt level pt =
     and_then (add_heading lib txt level) (\<lambda>h.
     and_then (first_run (\<lambda>r. r\<lparr>font_size := Some (Pt pt)\<rparr>) h) (\<lambda>h.
     first_run (\<lambda>r. r\<lparr>font_name := Some ''Times New Roman''\<rparr>) h))"

definition body_block :: "docx \<Rightarrow> string \<Rightarrow> exn + block" where
  "body_block lib txt =
     and_then (add_paragraph lib txt) (\<lambda>p.
     and_then (first_run (\<lambda>r. r\<lparr>font_name := Some ''Times New Roman''\<rparr>)
                 (p\<lparr>alignment := Some JUSTIFY\<rparr>)) (\<lambda>p.
     and_then (first_run (\<lambda>r. r\<lparr>font_size := Some (Pt 12)\<rparr>) p) (\<lambda>p.
     Inr (p\<lparr>line_spacing_rule := Some MULTIPLE, line_spacing := Some (3 / 2)\<rparr>))))"

text \<open>The body of the loop over the lines: the block that one line adds.\<close>

definition format_line :: "docx \<Rightarrow> string \<Rightarrow> exn + block" where
  "format_line lib line =
     (let clean_line = strip line
      in if clean_line = [] then add_paragraph lib []
         else (case header_match clean_line of
                 Some (numbering, g3) \<Rightarrow>
                   (let title = upper (strip g3)
                    in if count_list numbering (CHR ''.'') = 0
                       then heading_block lib (numbering @ '' '' @ title) 1 16
                       else heading_block lib (numbering @ '' '' @ title) 2 14)
               | None \<Rightarrow> body_block lib clean_line))"

fun format_lines :: "docx \<Rightarrow> string list \<Rightarrow> block list \<Rightarrow> exn + block list" where
  "format_lines lib [] ps = Inr ps"
| "format_lines lib (line # lines) ps =
     and_then (format_line lib line) (\<lambda>p. format_lines lib lines (ps @ [p]))"

text \<open>
  The body of the \<open>try\<close>. The text is \<open>None\<close> or a string, as the caller passes it;
  \<open>None\<close> has no \<open>strip\<close>. The payload is the saved document: its encoding as bytes is
  the library's and is not modelled.
\<close>

definition build_document :: "docx \<Rightarrow> string option \<Rightarrow> string \<Rightarrow> exn + document" where
  "build_document lib text_content topic =
     and_then (Document lib) (\<lambda>d.
     and_then (title_block lib topic) (\<lambda>topic_heading.
     and_then (add_paragraph lib []) (\<lambda>b1.
     and_then (add_paragraph lib []) (\<lambda>b2.
     and_then (case text_content of
                 None \<Rightarrow> Inl (CHR 0x27 # ''NoneType'' @ CHR 0x27 # '' object has no attribute ''
                              @ CHR 0x27 # ''strip'' @ [CHR 0x27])
               | Some txt \<Rightarrow> Inr (str_split newline (strip txt))) (\<lambda>lines.
     and_then (format_lines lib lines [topic_heading, b1, b2]) (\<lambda>ps.
     save lib (d\<lparr>top_margin := Some (Inches 1), bottom_margin := Some (Inches 1),
                 left_margin := Some (Inches 1), right_margin := Some (Inches 1),
                 paragraphs := ps\<rparr>)))))))"

definition text_to_word_buffer ::
    "docx \<Rightarrow> string option \<Rightarrow> string \<Rightarrow> document option \<times> string option" where
  "text_to_word_buffer lib text_content topic =
     (case build_document lib text_content topic of
        Inr doc_io \<Rightarrow> (Some doc_io, None)
      | Inl e \<Rightarrow> (None, Some (''Word Conversion Error: '' @ e)))"


section \<open>The report request\<close>

definition prompt :: "string \<Rightarrow> string" where
  "prompt topic = concat (map (\<lambda>l. newline # l)
     [''    Generate a **comprehensive, detailed, and professionally structured project report** for the topic: '' @ topic @ ''. '',
      ''    '',
      ''    CRITICAL TONE AND STYLE INSTRUCTIONS:'',
      ''    1. Write in an **active voice**, demonstrating critical analysis and nuanced understanding.'',
      ''    2. Use sophisticated academic language and strong transition words to ensure the text flows naturally, avoiding a robotic or repetitive style.'',
      ''    3. Back up claims with logical arguments, making the information feel authoritative and expert-written.'',
      ''    '',
      ''    To reach the requirement of 5 to 7 pages, the total text must be between **3000 and 4500 words**.'',
      ''    '',
      ''    Structure the report with two levels of headings, ensuring clear numbering followed by a colon for parsing:'',
      ''    '',
      ''    1. Introduction: (Define the problem, background, and scope)'',
      ''    1.1 Background and Context:'',
      ''    1.2 Problem Statement:'',
      ''    '',
      ''    2. Literature Review: (Analyze existing solutions and research gaps)'',
      ''    2.1 Current State of Research:'',
      ''    2.2 Identification of Gaps:'',
      ''    '',
      ''    3. Project Objectives: (Clear, measurable goals)'',
      ''    3.1 Specific Aims:'',
      ''    3.2 Deliverables:'',
      ''    '',
      ''    4. Detailed Methodology and System Design: (Technical approach, materials, and procedures)'',
      ''    4.1 Proposed Architecture:'',
      ''    4.2 Data Collection and Analysis Methods:'',
      ''    '',
      ''    5. Implementation Details and Results Analysis: '',
      ''    5.1 Execution Plan:'',
      ''    5.2 Expected Outcomes and Validation:'',
      ''    '',
      ''    6. Conclusion and Future Work: '',
      ''    6.1 Summary of Findings:'',
      ''    6.2 Future Scope and Recommendations:'',
      '''',
      ''    Format the content with numbered section headers followed by a colon (e.g., '1. Introduction:', '1.1 Background and Context:', etc.). '',
      ''    Ensure a blank line separates each section header and its preceding paragraph.'',
      ''    Do NOT use any Markdown (like #, *, or **).'',
      ''    ''])"

text \<open>
  The model handle is the remote call: from the prompt to the text of the response, or to
  the exception that the call or the reading of the response raises.
\<close>

type_synonym model = "string \<Rightarrow> exn + string"

definition generate_report_with_gemini :: "string \<Rightarrow> model \<Rightarrow> string option \<times> string option" where
  "generate_report_with_gemini topic model =
     (case model (prompt topic) of
        Inr response_text \<Rightarrow> (Some response_text, None)
      | Inl e \<Rightarrow> (None, Some (''Report Generation Error: '' @ e
                         @ ''. Please check your API key and input.'')))"

text \<open>
  The environment of one request: the secret store, the client configuration (what it
  raises, and the model handle it gives) and the document library.
\<close>

record env =
  api_key :: "string option"
  configure :: "string \<Rightarrow> exn + model"
  docx_lib :: docx

text \<open>\<open>get_gemini_model\<close> shows a message and stops the script when there is no model.\<close>

definition get_gemini_model :: "env \<Rightarrow> string + model" where
  "get_gemini_model e =
     (case api_key e of
        None \<Rightarrow> Inl ''Error: GOOGLE_API_KEY not found in Streamlit secrets.''
      | Some k \<Rightarrow> (case configure e k of
                     Inl x \<Rightarrow> Inl (''Error configuring Gemini: '' @ x)
                   | Inr m \<Rightarrow> Inr m))"


section \<open>The request handler\<close>

text \<open>
  What one run of \<open>main\<close> does after the page header, as the list of its calls to the two
  stages and of the widgets it shows, in order.
\<close>

datatype event =
    Called_generate string
  | Called_formatter "string option" string
  | Show_error string
  | Show_info
  | Show_success
  | Download_button string "document option" string
  | Show_word_count nat
  | Uncaught_exception

text \<open>\<open>if error:\<close> takes \<open>None\<close> and the empty string for false.\<close>

definition truthy :: "string option \<Rightarrow> string option" where
  "truthy v = (case v of None \<Rightarrow> None | Some s \<Rightarrow> if s = [] then None else Some s)"

definition filename :: "string \<Rightarrow> string" where
  "filename topic = replace (CHR ''/'') (CHR ''_'') (replace (CHR '' '') (CHR ''_'') topic) @ ''_report.docx''"

text \<open>\<open>len(report_text.split())\<close>; \<open>None\<close> has no \<open>split\<close>, and nothing catches that.\<close>

definition word_count :: "string option \<Rightarrow> event" where
  "word_count report_text =
     (case report_text of
        None \<Rightarrow> Uncaught_exception
      | Some t \<Rightarrow> Show_word_count (length (split_words [] t)))"

definition main :: "env \<Rightarrow> string \<Rightarrow> bool \<Rightarrow> event list" where
  "main e topic pressed =
     (if \<not> pressed then []
      else if topic = [] then [Show_error ''Please enter a project topic to begin generation.'']
      else (case get_gemini_model e of
              Inl msg \<Rightarrow> [Show_error msg]
            | Inr model \<Rightarrow>
                [Show_info, Called_generate topic] @
                (case generate_report_with_gemini topic model of (report_text, error) \<Rightarrow>
                   (case truthy error of
                      Some msg \<Rightarrow> [Show_error msg]
                    | None \<Rightarrow>
                        Called_formatter report_text topic #
                        (case text_to_word_buffer (docx_lib e) report_text topic of
                           (doc_buffer, word_error) \<Rightarrow>
                             (case truthy word_error of
                                Some msg \<Rightarrow> [Show_error msg]
                              | None \<Rightarrow>
                                  [Show_success,
                                   Download_button (filename topic) doc_buffer
                                     ''application/vnd.openxmlformats-officedocument.wordprocessingml.document'',
                                   word_count report_text]))))))"

section \<open>The blocks of the document\<close>

text \<open>
  The vocabulary of the statements: the four kinds of block as the code formats them, the
  page that holds them, the text of a block (the texts of its runs, as the library's
  \<open>paragraph.text\<close>) and the library that raises nothing.
\<close>

definition styled_run :: "string \<Rightarrow> nat \<Rightarrow> run" where
  "styled_run txt pt =
     \<lparr>run_text = txt, font_size = Some (Pt pt), font_name = Some ''Times New Roman''\<rparr>"

definition title_par :: "string \<Rightarrow> block" where
  "title_par txt =
     \<lparr>par_style = Title, runs = [styled_run txt 20], alignment = Some CENTER,
      line_spacing_rule = None, line_spacing = None\<rparr>"

definition blank_par :: block where
  "blank_par =
     \<lparr>par_style = Normal, runs = [], alignment = None,
      line_spacing_rule = None, line_spacing = None\<rparr>"

definition heading_par :: "nat \<Rightarrow> nat \<Rightarrow> string \<Rightarrow> block" where
  "heading_par level pt txt =
     \<lparr>par_style = Heading level, runs = [styled_run txt pt], alignment = None,
      line_spacing_rule = None, line_spacing = None\<rparr>"

definition body_par :: "string \<Rightarrow> block" where
  "body_par txt =
     \<lparr>par_style = Normal, runs = [styled_run txt 12], alignment = Some JUSTIFY,
      line_spacing_rule = Some MULTIPLE, line_spacing = Some (3 / 2)\<rparr>"

definition page :: "block list \<Rightarrow> document" where
  "page ps =
     \<lparr>top_margin = Some (Inches 1), bottom_margin = Some (Inches 1),
      left_margin = Some (Inches 1), right_margin = Some (Inches 1), paragraphs = ps\<rparr>"

definition block_text :: "block \<Rightarrow> string" where
  "block_text b = concat (map run_text (runs b))"

definition is_heading :: "block \<Rightarrow> bool" where
  "is_heading b = (case par_style b of Heading n \<Rightarrow> True | _ \<Rightarrow> False)"

definition is_blank :: "block \<Rightarrow> bool" where
  "is_blank b = (par_style b = Normal \<and> runs b = [])"

definition is_body :: "block \<Rightarrow> bool" where
  "is_body b = (par_style b = Normal \<and> runs b \<noteq> [])"

definition no_raise :: docx where
  "no_raise = (\<lambda>c. None)"

text \<open>The block of a line when the library raises nothing.\<close>

definition rendered :: "string \<Rightarrow> block" where
  "rendered line =
     (if strip line = [] then blank_par
      else (case header_match (strip line) of
              Some (n, g3) \<Rightarrow>
                if count_list n (CHR ''.'') = 0
                then heading_par 1 16 (n @ '' '' @ upper (strip g3))
                else heading_par 2 14 (n @ '' '' @ upper (strip g3))
            | None \<Rightarrow> body_par (strip line)))"

section \<open>The grammar of a heading line\<close>

text \<open>
  The grammar as the specification words it: one or more groups of digits separated by
  dots, optional whitespace, optional free text, and a colon that ends the line.
  \<open>dotted\<close> writes the groups with the dots between them, and \<open>str_join\<close> puts lines
  together again with the separator between them.
\<close>

fun dotted :: "string list \<Rightarrow> string" where
  "dotted [] = []"
| "dotted [g] = g"
| "dotted (g # gs) = g @ CHR ''.'' # dotted gs"

definition digits :: "string \<Rightarrow> bool" where
  "digits g = (g \<noteq> [] \<and> list_all isdigit g)"

definition heading_grammar :: "string \<Rightarrow> bool" where
  "heading_grammar line =
     (\<exists>gs w t. gs \<noteq> [] \<and> list_all digits gs \<and> list_all isspace w \<and>
        line = dotted gs @ w @ t @ '':'')"

definition str_join :: "char \<Rightarrow> string list \<Rightarrow> string" where
  "str_join sep ls = (case ls of [] \<Rightarrow> [] | l # ls' \<Rightarrow> l @ concat (map (\<lambda>x. sep # x) ls'))"


section \<open>The stages of the search\<close>

text \<open>
  The pattern search, cut after the numbering and after the whitespace, for the proofs:
  what can follow a given group 1, and the characters a numbering is made of.
\<close>

definition tail_matches :: "string \<Rightarrow> string \<Rightarrow> (string \<times> string) list" where
  "tail_matches g1 r3 =
     concat (map (\<lambda>(g3, r4).
           (case r4 of
              [] \<Rightarrow> []
            | c # r5 \<Rightarrow> if c = CHR '':'' \<and> at_end r5 then [(g1, g3)] else []))
           (lazy_star any_char r3))"

definition space_matches :: "string \<Rightarrow> string \<Rightarrow> (string \<times> string) list" where
  "space_matches g1 r2 = concat (map (\<lambda>(w, r3). tail_matches g1 r3) (greedy_star isspace r2))"

definition numbering_char :: "char \<Rightarrow> bool" where
  "numbering_char c = (isdigit c \<or> c = CHR ''.'')"


section \<open>Facts about the formatter\<close>

lemma and_then_Inr: "and_then m f = Inr y \<longleftrightarrow> (\<exists>x. m = Inr x \<and> f x = Inr y)"
  by (cases m) (simp_all add: and_then_def)

lemma and_then_Inl: "and_then m f = Inl e \<longleftrightarrow> (m = Inl e \<or> (\<exists>x. m = Inr x \<and> f x = Inl e))"
  by (cases m) (simp_all add: and_then_def)

lemma blank_eq:
  "add_paragraph lib [] = (case lib (AddParagraph []) of Some e \<Rightarrow> Inl e | None \<Rightarrow> Inr blank_par)"
  by (simp add: add_paragraph_def new_paragraph_def blank_par_def split: option.splits)

lemma heading_block_eq:
  "heading_block lib txt level pt =
     (case lib (AddHeading txt level) of
        Some e \<Rightarrow> Inl e
      | None \<Rightarrow> if txt = [] then Inl ''list index out of range''
                else if level = 0 then Inr ((heading_par level pt txt)\<lparr>par_style := Title\<rparr>)
                else Inr (heading_par level pt txt))"
  by (simp add: heading_block_def and_then_def first_run_def new_paragraph_def heading_par_def
      styled_run_def add_heading_def split: option.splits)

lemma upper_char_not_Nil: "upper_char c \<noteq> []"
  by (simp add: upper_char_def split: option.splits)

lemma upper_Nil_iff: "upper s = [] \<longleftrightarrow> s = []"
  by (cases s) (simp_all add: upper_def upper_char_not_Nil)

lemma title_block_eq:
  "title_block lib topic =
     (case lib (AddHeading (upper topic) 0) of
        Some e \<Rightarrow> Inl e
      | None \<Rightarrow> if topic = [] then Inl ''list index out of range''
                else Inr (title_par (upper topic)))"
  by (simp add: title_block_def and_then_def first_run_def new_paragraph_def title_par_def
      styled_run_def add_heading_def upper_Nil_iff split: option.splits)

lemma body_block_eq:
  "body_block lib txt =
     (case lib (AddParagraph txt) of
        Some e \<Rightarrow> Inl e
      | None \<Rightarrow> if txt = [] then Inl ''list index out of range'' else Inr (body_par txt))"
  by (simp add: body_block_def and_then_def first_run_def new_paragraph_def body_par_def
      styled_run_def add_paragraph_def split: option.splits)

lemma format_line_Inr: "format_line lib line = Inr b \<Longrightarrow> b = rendered line"
  by (auto simp: format_line_def rendered_def Let_def blank_eq heading_block_eq body_block_eq
      split: option.splits if_splits)

lemma format_line_no_raise: "format_line no_raise line = Inr (rendered line)"
  by (auto simp: format_line_def rendered_def Let_def blank_eq heading_block_eq body_block_eq
      no_raise_def split: option.splits)

lemma format_lines_Inr:
  "format_lines lib ls ps = Inr qs \<Longrightarrow>
     qs = ps @ map rendered ls \<and> list_all (\<lambda>l. format_line lib l = Inr (rendered l)) ls"
proof (induction ls arbitrary: ps)
  case Nil
  then show ?case by simp
next
  case (Cons l ls)
  from Cons.prems obtain b where b: "format_line lib l = Inr b"
    and rest: "format_lines lib ls (ps @ [b]) = Inr qs"
    by (auto simp: and_then_Inr)
  from b have "b = rendered l" by (rule format_line_Inr)
  with b rest Cons.IH [of "ps @ [b]"] show ?case by simp
qed

lemma format_lines_no_raise: "format_lines no_raise ls ps = Inr (ps @ map rendered ls)"
  by (induction ls arbitrary: ps) (auto simp: and_then_def format_line_no_raise)

lemma build_document_Inr:
  "build_document lib (Some txt) topic = Inr d \<Longrightarrow>
     topic \<noteq> [] \<and>
     d = page ([title_par (upper topic), blank_par, blank_par] @ map rendered (str_split newline (strip txt)))"
  by (auto simp: build_document_def and_then_Inr title_block_eq blank_eq Document_def save_def page_def
      split: option.splits if_splits dest!: format_lines_Inr)

lemma build_document_no_raise:
  "topic \<noteq> [] \<Longrightarrow> build_document no_raise (Some txt) topic =
     Inr (page ([title_par (upper topic), blank_par, blank_par] @ map rendered (str_split newline (strip txt))))"
  by (simp add: build_document_def title_block_eq blank_eq Document_def save_def page_def
      format_lines_no_raise and_then_def no_raise_def[THEN fun_cong])

lemma str_split_not_Nil: "str_split sep s \<noteq> []"
  by (induction s) (auto split: list.splits)

lemma str_split_no_sep: "l \<in> set (str_split sep s) \<Longrightarrow> sep \<notin> set l"
  by (induction s arbitrary: l) (auto split: list.splits if_splits)

lemma str_split_length: "length (str_split sep s) = Suc (count_list s sep)"
  by (induction s) (auto split: list.splits simp: str_split_not_Nil)

lemma str_join_split: "str_join sep (str_split sep s) = s"
  by (induction s) (auto simp: str_join_def split: list.splits)

lemma str_split_hd: "s \<noteq> [] \<Longrightarrow> hd s \<noteq> sep \<Longrightarrow> hd s \<in> set (hd (str_split sep s))"
  by (cases s) (auto split: list.splits)

lemma str_split_last: "s \<noteq> [] \<Longrightarrow> last s \<noteq> sep \<Longrightarrow> last s \<in> set (last (str_split sep s))"
  by (induction s) (auto split: list.splits if_splits simp: str_split_not_Nil)

lemma dropWhile_all_Nil: "list_all P (dropWhile P xs) \<longleftrightarrow> dropWhile P xs = []"
proof (cases "dropWhile P xs")
  case Nil
  then show ?thesis by (simp del: dropWhile_eq_Nil_conv)
next
  case (Cons y ys)
  with hd_dropWhile [of P xs] show ?thesis by auto
qed

lemma strip_Nil_iff: "strip s = [] \<longleftrightarrow> list_all isspace s"
proof -
  have "strip s = [] \<longleftrightarrow> list_all isspace (dropWhile isspace s)"
    by (simp add: strip_def dropWhile_eq_Nil_conv list_all_iff)
  also have "\<dots> \<longleftrightarrow> dropWhile isspace s = []" by (rule dropWhile_all_Nil)
  also have "\<dots> \<longleftrightarrow> list_all isspace s" by (simp add: list_all_iff)
  finally show ?thesis .
qed

lemma strip_subset: "set (strip s) \<subseteq> set s"
  by (auto simp: strip_def dest!: set_dropWhileD)

lemma strip_ends:
  assumes "strip s \<noteq> []"
  shows "\<not> isspace (hd (strip s))" and "\<not> isspace (last (strip s))"
proof -
  let ?ys = "dropWhile isspace s"
  from assms have ys: "?ys \<noteq> []" by (cases "?ys = []") (simp_all add: strip_def)
  have "strip s @ rev (takeWhile isspace (rev ?ys)) = ?ys"
    by (simp add: strip_def flip: rev_append)
  then have "hd ?ys = hd (strip s)" using assms by (metis hd_append2)
  with ys show "\<not> isspace (hd (strip s))" using hd_dropWhile [of isspace s] by simp
  from assms have "dropWhile isspace (rev ?ys) \<noteq> []" by (simp add: strip_def)
  then have "\<not> isspace (hd (dropWhile isspace (rev ?ys)))" by (rule hd_dropWhile)
  then show "\<not> isspace (last (strip s))" using assms by (simp add: strip_def last_rev)
qed

lemma rev_dropWhile_rev_id: "xs = [] \<or> \<not> P (last xs) \<Longrightarrow> rev (dropWhile P (rev xs)) = xs"
  by (cases xs rule: rev_cases) auto

lemma strip_id: "s = [] \<or> (\<not> isspace (hd s) \<and> \<not> isspace (last s)) \<Longrightarrow> strip s = s"
proof -
  assume a: "s = [] \<or> (\<not> isspace (hd s) \<and> \<not> isspace (last s))"
  then have "dropWhile isspace s = s" by (cases s) auto
  moreover from a have "rev (dropWhile isspace (rev s)) = s" by (intro rev_dropWhile_rev_id) auto
  ultimately show ?thesis by (simp add: strip_def)
qed

lemma strip_strip: "strip (strip s) = strip s"
  using strip_ends [of s] by (intro strip_id) auto

lemma newline_space: "isspace newline"
  by (simp add: isspace_def newline_def)

lemma header_matches_stages:
  "header_matches s = concat (map (\<lambda>(g1, r2). space_matches g1 r2) (digit_groups s))"
  by (simp add: header_matches_def space_matches_def tail_matches_def)

lemma colon_not_space: "\<not> isspace (CHR '':'')"
  by (simp add: isspace_def)

lemma digit_not_colon: "isdigit c \<Longrightarrow> c \<noteq> CHR '':''"
  by (auto simp: isdigit_def)

lemma digit_not_dot: "isdigit c \<Longrightarrow> c \<noteq> CHR ''.''"
  by (auto simp: isdigit_def)

lemma tail_matches_consume:
  "concat (map (\<lambda>(g3, r4).
           (case r4 of
              [] \<Rightarrow> []
            | c # r5 \<Rightarrow> if c = CHR '':'' \<and> at_end r5 then [(g1, g3)] else []))
           (consume x alts))
   = map (\<lambda>(g, t). (g, x # t)) (concat (map (\<lambda>(g3, r4).
           (case r4 of
              [] \<Rightarrow> []
            | c # r5 \<Rightarrow> if c = CHR '':'' \<and> at_end r5 then [(g1, g3)] else [])) alts))"
  by (induction alts) (auto simp: consume_def split: list.splits)

lemma tail_matches_eq:
  "newline \<notin> set r3 \<Longrightarrow>
     tail_matches g1 r3 = (if r3 \<noteq> [] \<and> last r3 = CHR '':'' then [(g1, butlast r3)] else [])"
proof (induction r3)
  case Nil
  then show ?case by (simp add: tail_matches_def)
next
  case (Cons c cs)
  then have IH: "tail_matches g1 cs = (if cs \<noteq> [] \<and> last cs = CHR '':'' then [(g1, butlast cs)] else [])"
    and c: "any_char c" and cs: "at_end cs \<longleftrightarrow> cs = []"
    by (auto simp: any_char_def at_end_def)
  have "tail_matches g1 (c # cs) =
      (if c = CHR '':'' \<and> cs = [] then [(g1, [])] else []) @ map (\<lambda>(g, t). (g, c # t)) (tail_matches g1 cs)"
    using c cs by (simp add: tail_matches_def tail_matches_consume)
  then show ?case using IH by (cases "cs = []") (auto simp: tail_matches_def)
qed

lemma greedy_plus_parts:
  "(w, r) \<in> set (greedy_plus p s) \<Longrightarrow> s = w @ r \<and> w \<noteq> [] \<and> list_all p w"
  by (induction s arbitrary: w) (auto simp: consume_def split: if_splits)

lemma greedy_star_parts:
  "(w, r) \<in> set (greedy_star p s) \<Longrightarrow> s = w @ r \<and> list_all p w"
  by (auto simp: greedy_star_def dest: greedy_plus_parts)

lemma greedy_plus_Nil: "s = [] \<or> \<not> p (hd s) \<Longrightarrow> greedy_plus p s = []"
  by (cases s) auto

lemma greedy_plus_hd:
  "s \<noteq> [] \<Longrightarrow> p (hd s) \<Longrightarrow> \<exists>rest. greedy_plus p s = (takeWhile p s, dropWhile p s) # rest"
proof (induction s)
  case Nil
  then show ?case by simp
next
  case (Cons c cs)
  then have c: "p c" by simp
  show ?case
  proof (cases "cs \<noteq> [] \<and> p (hd cs)")
    case True
    with Cons.IH obtain rest where "greedy_plus p cs = (takeWhile p cs, dropWhile p cs) # rest"
      by auto
    with c show ?thesis by (simp add: consume_def)
  next
    case False
    then have "greedy_plus p cs = []" by (intro greedy_plus_Nil) auto
    moreover from False have "takeWhile p cs = []" "dropWhile p cs = cs" by (cases cs; simp)+
    ultimately show ?thesis using c by (simp add: consume_def)
  qed
qed

lemma greedy_star_hd:
  "\<exists>rest. greedy_star p s = (takeWhile p s, dropWhile p s) # rest"
proof (cases "s \<noteq> [] \<and> p (hd s)")
  case True
  then obtain rest where "greedy_plus p s = (takeWhile p s, dropWhile p s) # rest"
    using greedy_plus_hd [of s p] by auto
  then show ?thesis by (simp add: greedy_star_def)
next
  case False
  then have "greedy_plus p s = []" by (intro greedy_plus_Nil) auto
  moreover from False have "takeWhile p s = []" "dropWhile p s = s" by (cases s; simp)+
  ultimately show ?thesis by (simp add: greedy_star_def)
qed

lemma concat_map_singletons:
  "(\<And>x. x \<in> set xs \<Longrightarrow> f x = [g x]) \<Longrightarrow> concat (map f xs) = map g xs"
  by (induction xs) auto

lemma concat_map_empty:
  "(\<And>x. x \<in> set xs \<Longrightarrow> f x = []) \<Longrightarrow> concat (map f xs) = []"
  by (induction xs) auto

lemma spaces_keep_colon:
  assumes "s = w @ r" "list_all isspace w"
  shows "(r \<noteq> [] \<and> last r = CHR '':'') \<longleftrightarrow> (s \<noteq> [] \<and> last s = CHR '':'')"
proof (cases "r = []")
  case True
  with assms show ?thesis
    by (cases "w = []") (auto simp: list_all_iff colon_not_space dest!: last_in_set)
next
  case False
  with assms show ?thesis by simp
qed

lemma space_matches_Nil:
  assumes "newline \<notin> set r2" "\<not> (r2 \<noteq> [] \<and> last r2 = CHR '':'')"
  shows "space_matches g1 r2 = []"
proof -
  have "\<And>x. x \<in> set (greedy_star isspace r2) \<Longrightarrow> (\<lambda>(w, r3). tail_matches g1 r3) x = []"
  proof -
    fix x assume x: "x \<in> set (greedy_star isspace r2)"
    obtain w r3 where [simp]: "x = (w, r3)" by (cases x)
    from x have parts: "r2 = w @ r3" "list_all isspace w" by (auto dest: greedy_star_parts)
    with assms have "\<not> (r3 \<noteq> [] \<and> last r3 = CHR '':'')" using spaces_keep_colon [OF parts] by simp
    moreover from parts assms have "newline \<notin> set r3" by auto
    ultimately show "(\<lambda>(w, r3). tail_matches g1 r3) x = []"
      by (simp add: tail_matches_eq)
  qed
  then show ?thesis unfolding space_matches_def by (rule concat_map_empty)
qed

lemma space_matches_hd:
  assumes "newline \<notin> set r2" "r2 \<noteq> []" "last r2 = CHR '':''"
  shows "\<exists>rest. space_matches g1 r2 = (g1, butlast (dropWhile isspace r2)) # rest"
proof -
  have "\<And>x. x \<in> set (greedy_star isspace r2) \<Longrightarrow>
          (\<lambda>(w, r3). tail_matches g1 r3) x = [(\<lambda>(w, r3). (g1, butlast r3)) x]"
  proof -
    fix x assume x: "x \<in> set (greedy_star isspace r2)"
    obtain w r3 where [simp]: "x = (w, r3)" by (cases x)
    from x have parts: "r2 = w @ r3" "list_all isspace w" by (auto dest: greedy_star_parts)
    with assms have "r3 \<noteq> [] \<and> last r3 = CHR '':''" using spaces_keep_colon [OF parts] by simp
    moreover from parts assms have "newline \<notin> set r3" by auto
    ultimately show "(\<lambda>(w, r3). tail_matches g1 r3) x = [(\<lambda>(w, r3). (g1, butlast r3)) x]"
      by (simp add: tail_matches_eq)
  qed
  then have "space_matches g1 r2 = map (\<lambda>(w, r3). (g1, butlast r3)) (greedy_star isspace r2)"
    unfolding space_matches_def by (rule concat_map_singletons)
  with greedy_star_hd [of isspace r2] show ?thesis by auto
qed

lemma groups_parts:
  "\<forall>m r. (m, r) \<in> set (groups_star s) \<longrightarrow> s = m @ r \<and> list_all numbering_char m"
  "\<forall>m r. (m, r) \<in> set (digit_groups t) \<longrightarrow> t = m @ r \<and> m \<noteq> [] \<and> list_all numbering_char m"
  by (induction s and t rule: groups_star_digit_groups.induct)
     (auto simp: consume_def numbering_char_def split: if_splits)

lemma digit_groups_parts:
  "(m, r) \<in> set (digit_groups s) \<Longrightarrow> s = m @ r \<and> m \<noteq> [] \<and> list_all numbering_char m"
  using groups_parts(2) by blast

lemma groups_star_not_Nil: "groups_star s \<noteq> []"
  by (cases s) auto

lemma digit_groups_Nil: "digit_groups s = [] \<longleftrightarrow> s = [] \<or> \<not> isdigit (hd s)"
  by (cases s) (auto simp: consume_def groups_star_not_Nil)

lemma numbering_keeps_colon:
  assumes "s = m @ r" "list_all numbering_char m"
  shows "(r \<noteq> [] \<and> last r = CHR '':'') \<longleftrightarrow> (s \<noteq> [] \<and> last s = CHR '':'')"
proof (cases "r = []")
  case True
  with assms show ?thesis
    by (cases "m = []") (auto simp: list_all_iff numbering_char_def isdigit_def dest!: last_in_set)
next
  case False
  with assms show ?thesis by simp
qed

lemma header_matches_Nil:
  assumes "newline \<notin> set s" "\<not> (s \<noteq> [] \<and> last s = CHR '':'')"
  shows "header_matches s = []"
proof -
  have "\<And>x. x \<in> set (digit_groups s) \<Longrightarrow> (\<lambda>(g1, r2). space_matches g1 r2) x = []"
  proof -
    fix x assume x: "x \<in> set (digit_groups s)"
    obtain g1 r2 where [simp]: "x = (g1, r2)" by (cases x)
    from x have parts: "s = g1 @ r2" "list_all numbering_char g1"
      by (auto dest: digit_groups_parts)
    with assms have "\<not> (r2 \<noteq> [] \<and> last r2 = CHR '':'')"
      using numbering_keeps_colon [OF parts] by simp
    moreover from parts assms have "newline \<notin> set r2" by auto
    ultimately show "(\<lambda>(g1, r2). space_matches g1 r2) x = []"
      by (simp add: space_matches_Nil)
  qed
  then show ?thesis unfolding header_matches_stages by (rule concat_map_empty)
qed

lemma header_matches_hd:
  assumes "newline \<notin> set s" "last s = CHR '':''" "digit_groups s = (g1, r2) # alts"
  shows "\<exists>rest. header_matches s = (g1, butlast (dropWhile isspace r2)) # rest"
proof -
  from assms(3) have "(g1, r2) \<in> set (digit_groups s)" by simp
  then have parts: "s = g1 @ r2" "list_all numbering_char g1"
    by (auto dest: digit_groups_parts)
  from parts assms have "s \<noteq> []" by auto
  with assms have "r2 \<noteq> [] \<and> last r2 = CHR '':''"
    using numbering_keeps_colon [OF parts] by simp
  moreover from parts assms have "newline \<notin> set r2" by auto
  ultimately obtain rest where "space_matches g1 r2 = (g1, butlast (dropWhile isspace r2)) # rest"
    using space_matches_hd [of r2 g1] by auto
  with assms(3) show ?thesis by (simp add: header_matches_stages)
qed

lemma header_match_eq:
  assumes "newline \<notin> set s"
  shows "header_match s =
     (case digit_groups s of
        [] \<Rightarrow> None
      | (g1, r2) # alts \<Rightarrow>
          if last s = CHR '':'' then Some (g1, butlast (dropWhile isspace r2)) else None)"
proof (cases "digit_groups s")
  case Nil
  then show ?thesis by (simp add: header_match_def header_matches_stages)
next
  case (Cons x alts)
  obtain g1 r2 where x: "x = (g1, r2)" by (cases x)
  show ?thesis
  proof (cases "last s = CHR '':''")
    case True
    with assms Cons x obtain rest where
      "header_matches s = (g1, butlast (dropWhile isspace r2)) # rest"
      using header_matches_hd [of s g1 r2 alts] by auto
    with Cons x True show ?thesis by (simp add: header_match_def)
  next
    case False
    with assms have "header_matches s = []" by (intro header_matches_Nil) auto
    with Cons x False show ?thesis by (simp add: header_match_def)
  qed
qed

lemma header_match_None:
  assumes "newline \<notin> set s"
  shows "header_match s = None \<longleftrightarrow> s = [] \<or> \<not> isdigit (hd s) \<or> last s \<noteq> CHR '':''"
  using digit_groups_Nil [of s]
  by (auto simp: header_match_eq [OF assms] split: list.splits)

lemma groups_star_stop:
  "tail = [] \<or> hd tail \<noteq> CHR ''.'' \<Longrightarrow> groups_star tail = [([], tail)]"
  by (cases tail) auto

lemma groups_star_dot:
  "digit_groups t = (m, r) # alts \<Longrightarrow> \<exists>rest. groups_star (CHR ''.'' # t) = (CHR ''.'' # m, r) # rest"
  by (simp add: consume_def)

lemma digit_run:
  assumes "digits g" "tail = [] \<or> \<not> isdigit (hd tail)" "groups_star tail = (m, r) # alts"
  shows "\<exists>rest. digit_groups (g @ tail) = (g @ m, r) # rest"
  using assms(1)
proof (induction g)
  case Nil
  then show ?case by (simp add: digits_def)
next
  case (Cons c g)
  then have c: "isdigit c" and g: "list_all isdigit g" by (simp_all add: digits_def)
  show ?case
  proof (cases "g = []")
    case True
    from assms(2) have "digit_groups tail = []" by (simp add: digit_groups_Nil)
    with True c assms(3) show ?thesis by (simp add: consume_def)
  next
    case False
    with g have "digits g" by (simp add: digits_def)
    with Cons.IH obtain rest where "digit_groups (g @ tail) = (g @ m, r) # rest" by auto
    with c show ?thesis by (simp add: consume_def)
  qed
qed

lemma dotted_hd: "digits g \<Longrightarrow> dotted (g # gs) \<noteq> [] \<and> isdigit (hd (dotted (g # gs)))"
  by (cases gs; cases g) (auto simp: digits_def)

lemma dotted_greedy:
  assumes "tail = [] \<or> (\<not> isdigit (hd tail) \<and> hd tail \<noteq> CHR ''.'')"
  shows "gs \<noteq> [] \<Longrightarrow> list_all digits gs \<Longrightarrow>
           \<exists>rest. digit_groups (dotted gs @ tail) = (dotted gs, tail) # rest"
proof (induction gs rule: dotted.induct)
  case 1
  then show ?case by simp
next
  case (2 g)
  from assms have "groups_star tail = ([], tail) # []" by (intro groups_star_stop) auto
  with 2 assms digit_run [of g tail "[]" tail "[]"] show ?case by auto
next
  case (3 g g' gs)
  then obtain rest where
    "digit_groups (dotted (g' # gs) @ tail) = (dotted (g' # gs), tail) # rest" by auto
  then obtain rest' where
    "groups_star (CHR ''.'' # dotted (g' # gs) @ tail) = (CHR ''.'' # dotted (g' # gs), tail) # rest'"
    using groups_star_dot by blast
  moreover have "\<not> isdigit (CHR ''.'')" by (simp add: isdigit_def)
  moreover from 3 have "digits g" by simp
  ultimately show ?case
    using digit_run [of g "CHR ''.'' # dotted (g' # gs) @ tail" "CHR ''.'' # dotted (g' # gs)" tail rest']
    by auto
qed

lemma dotted_no_newline: "list_all digits gs \<Longrightarrow> newline \<notin> set (dotted gs)"
  by (induction gs rule: dotted.induct) (auto simp: digits_def list_all_iff isdigit_def newline_def)

lemma dotted_count:
  "list_all digits gs \<Longrightarrow> count_list (dotted gs) (CHR ''.'') = length gs - 1"
proof (induction gs rule: dotted.induct)
  case 1
  then show ?case by simp
next
  case (2 g)
  then have "CHR ''.'' \<notin> set g" by (auto simp: digits_def list_all_iff isdigit_def)
  then show ?case by (simp add: count_list_0_iff)
next
  case (3 g g' gs)
  then have "CHR ''.'' \<notin> set g" by (auto simp: digits_def list_all_iff isdigit_def)
  then have "count_list g (CHR ''.'') = 0" by (simp add: count_list_0_iff)
  with 3 show ?case by (simp add: count_list_append)
qed

lemma header_match_dotted:
  assumes "gs \<noteq> []" "list_all digits gs"
  shows "header_match (dotted gs @ '':'') = Some (dotted gs, [])"
proof -
  have "newline \<notin> set (dotted gs @ '':'')"
    using dotted_no_newline [OF assms(2)] by (simp add: newline_def)
  moreover obtain rest where "digit_groups (dotted gs @ '':'') = (dotted gs, '':'') # rest"
    using dotted_greedy [of "'':''" gs] assms by (auto simp: isdigit_def)
  ultimately show ?thesis by (simp add: header_match_eq isspace_def)
qed

lemma heading_grammar_iff:
  "heading_grammar s \<longleftrightarrow> s \<noteq> [] \<and> isdigit (hd s) \<and> last s = CHR '':''"
proof
  assume "heading_grammar s"
  then obtain gs w t where gs: "gs \<noteq> []" "list_all digits gs"
    and s: "s = dotted gs @ w @ t @ '':''"
    by (auto simp: heading_grammar_def)
  from gs obtain g gs' where "gs = g # gs'" "digits g" by (cases gs) auto
  then have "dotted gs \<noteq> [] \<and> isdigit (hd (dotted gs))" using dotted_hd by simp
  with s show "s \<noteq> [] \<and> isdigit (hd s) \<and> last s = CHR '':''" by simp
next
  assume a: "s \<noteq> [] \<and> isdigit (hd s) \<and> last s = CHR '':''"
  then obtain c cs where s: "s = c # cs" and c: "isdigit c" by (cases s) auto
  with a have cs: "cs \<noteq> []" "last cs = CHR '':''" by (auto dest: digit_not_colon split: if_splits)
  then have "cs = butlast cs @ '':''" using append_butlast_last_id [of cs] by simp
  with s have "s = dotted [[c]] @ [] @ butlast cs @ '':''" by simp
  moreover from c have "list_all digits [[c]]" by (simp add: digits_def)
  ultimately show "heading_grammar s" unfolding heading_grammar_def
    by (intro exI [of _ "[[c]]"] exI [of _ "[]"] exI [of _ "butlast cs"]) simp
qed

lemma header_match_grammar:
  "newline \<notin> set s \<Longrightarrow> header_match s \<noteq> None \<longleftrightarrow> heading_grammar s"
  by (auto simp: header_match_None heading_grammar_iff)

lemma rendered_heading:
  "strip line \<noteq> [] \<Longrightarrow> is_heading (rendered line) \<longleftrightarrow> header_match (strip line) \<noteq> None"
  by (auto simp: rendered_def is_heading_def heading_par_def body_par_def split: option.splits)

lemma rendered_body:
  "strip line \<noteq> [] \<Longrightarrow> header_match (strip line) = None \<Longrightarrow> rendered line = body_par (strip line)"
  by (simp add: rendered_def)

lemmas eval_defs = format_line_def header_match_def header_matches_def greedy_star_def consume_def
  isdigit_def isspace_def any_char_def at_end_def newline_def strip_def upper_def upper_char_def
  heading_block_eq body_block_eq blank_eq no_raise_def Let_def

lemma format_line_heading:
  assumes "header_match (strip line) = Some (n, g3)" "strip line \<noteq> []"
  shows "rendered line =
     (if CHR ''.'' \<in> set n then heading_par 2 14 (n @ '' '' @ upper (strip g3))
      else heading_par 1 16 (n @ '' '' @ upper (strip g3)))"
  using assms by (simp add: rendered_def count_list_0_iff)

lemma text_to_word_buffer_Some:
  assumes "text_to_word_buffer lib (Some txt) topic = (Some d, e)"
  shows "e = None" and "topic \<noteq> []"
    and "d = page ([title_par (upper topic), blank_par, blank_par]
                    @ map rendered (str_split newline (strip txt)))"
    and "list_all (\<lambda>l. format_line lib l = Inr (rendered l)) (str_split newline (strip txt))"
proof -
  from assms have b: "build_document lib (Some txt) topic = Inr d" and "e = None"
    by (auto simp: text_to_word_buffer_def split: sum.splits)
  then show "e = None" by simp
  from b show "topic \<noteq> []"
    and "d = page ([title_par (upper topic), blank_par, blank_par]
                    @ map rendered (str_split newline (strip txt)))"
    by (auto dest: build_document_Inr)
  from b obtain ps where "format_lines lib (str_split newline (strip txt)) ps = Inr (paragraphs d)"
    by (auto simp: build_document_def and_then_Inr save_def split: option.splits)
  then show "list_all (\<lambda>l. format_line lib l = Inr (rendered l)) (str_split newline (strip txt))"
    by (auto dest: format_lines_Inr)
qed

lemma text_to_word_buffer_no_raise:
  "topic \<noteq> [] \<Longrightarrow> text_to_word_buffer no_raise (Some txt) topic =
     (Some (page ([title_par (upper topic), blank_par, blank_par]
                    @ map rendered (str_split newline (strip txt)))), None)"
  by (simp add: text_to_word_buffer_def build_document_no_raise)

lemma rendered_kind:
  "(is_blank (rendered line) \<longleftrightarrow> strip line = []) \<and>
   (strip line = [] \<longrightarrow> rendered line = blank_par) \<and>
   (strip line \<noteq> [] \<longrightarrow> (is_heading (rendered line) \<or> is_body (rendered line))) \<and>
   \<not> (is_heading (rendered line) \<and> is_body (rendered line))"
  by (auto simp: rendered_def is_blank_def is_heading_def is_body_def blank_par_def heading_par_def
      body_par_def split: option.splits)

lemma paragraphs_page: "paragraphs (page ps) = ps"
  by (simp add: page_def)

lemmas scenario_defs = rendered_def header_match_def header_matches_def greedy_star_def consume_def
  isdigit_def isspace_def any_char_def at_end_def newline_def strip_def upper_def upper_char_def

lemma strip_nonblank_member: "c \<in> set l \<Longrightarrow> \<not> isspace c \<Longrightarrow> strip l \<noteq> []"
  by (auto simp: strip_Nil_iff list_all_iff)

lemma first_last_line_not_blank:
  assumes "strip txt \<noteq> []"
  shows "strip (hd (str_split newline (strip txt))) \<noteq> []"
    and "strip (last (str_split newline (strip txt))) \<noteq> []"
proof -
  from strip_ends [OF assms] have h: "\<not> isspace (hd (strip txt))" and l: "\<not> isspace (last (strip txt))" .
  from h newline_space have "hd (strip txt) \<noteq> newline" by auto
  with assms have "hd (strip txt) \<in> set (hd (str_split newline (strip txt)))"
    by (intro str_split_hd)
  with h show "strip (hd (str_split newline (strip txt))) \<noteq> []"
    by (auto simp: strip_Nil_iff list_all_iff)
  from l newline_space have "last (strip txt) \<noteq> newline" by auto
  with assms have "last (strip txt) \<in> set (last (str_split newline (strip txt)))"
    by (intro str_split_last)
  with l show "strip (last (str_split newline (strip txt))) \<noteq> []"
    by (auto simp: strip_Nil_iff list_all_iff)
qed

lemma rendered_body_text:
  "strip line \<noteq> [] \<Longrightarrow> \<not> is_heading (rendered line) \<Longrightarrow>
     rendered line = body_par (strip line) \<and> block_text (rendered line) = strip line"
  by (auto simp: rendered_def is_heading_def heading_par_def body_par_def block_text_def styled_run_def
      split: option.splits)

lemma generation_error_shape:
  assumes "generate_report_with_gemini topic model = (report_text, Some msg)"
  shows "report_text = None"
    and "\<exists>x. model (prompt topic) = Inl x
              \<and> msg = ''Report Generation Error: '' @ x @ ''. Please check your API key and input.''"
  using assms by (auto simp: generate_report_with_gemini_def split: sum.splits)

lemma error_kinds_differ:
  "''Report Generation Error: '' @ x \<noteq> ''Word Conversion Error: '' @ y"
  by simp

lemma text_to_word_buffer_cases:
  "(\<exists>d. build_document lib text_content topic = Inr d
         \<and> text_to_word_buffer lib text_content topic = (Some d, None))
   \<or> (\<exists>x. build_document lib text_content topic = Inl x
         \<and> text_to_word_buffer lib text_content topic = (None, Some (''Word Conversion Error: '' @ x)))"
  by (cases "build_document lib text_content topic") (simp_all add: text_to_word_buffer_def)

lemma filename_eq:
  "filename topic =
     map (\<lambda>c. if c = CHR '' '' \<or> c = CHR ''/'' then CHR ''_'' else c) topic @ ''_report.docx''"
  by (simp add: filename_def replace_def)

lemma word_count_not_download: "word_count report_text \<noteq> Download_button f d m"
  by (cases report_text) (simp_all add: word_count_def)

lemma main_download_name:
  assumes "Download_button f d m \<in> set (main e topic pressed)"
  shows "f = filename topic"
proof (cases "pressed \<and> topic \<noteq> []")
  case False
  with assms show ?thesis by (auto simp: main_def split: if_splits)
next
  case True
  show ?thesis
  proof (cases "get_gemini_model e")
    case (Inl msg)
    with True assms show ?thesis by (simp add: main_def)
  next
    case (Inr model)
    obtain report_text error where g: "generate_report_with_gemini topic model = (report_text, error)"
      by (cases "generate_report_with_gemini topic model")
    show ?thesis
    proof (cases "truthy error")
      case (Some msg)
      with True Inr g assms show ?thesis by (simp add: main_def)
    next
      case None
      obtain doc_buffer word_error where
        w: "text_to_word_buffer (docx_lib e) report_text topic = (doc_buffer, word_error)"
        by (cases "text_to_word_buffer (docx_lib e) report_text topic")
      show ?thesis
      proof (cases "truthy word_error")
        case (Some msg)
        with True Inr g None w assms show ?thesis by (simp add: main_def)
      next
        case n: None
        with True Inr g None w assms show ?thesis
          by (simp add: main_def word_count_not_download [symmetric])
      qed
    qed
  qed
qed

lemma main_success:
  assumes "topic \<noteq> []" and "get_gemini_model e = Inr model"
    and "generate_report_with_gemini topic model = (report_text, None)"
    and "text_to_word_buffer (docx_lib e) report_text topic = (Some payload, None)"
  shows "main e topic True =
           [Show_info, Called_generate topic, Called_formatter report_text topic, Show_success,
            Download_button (filename topic) (Some payload)
              ''application/vnd.openxmlformats-officedocument.wordprocessingml.document'',
            word_count report_text]"
  using assms by (simp add: main_def truthy_def)


section \<open>Headings and body paragraphs\<close>

text \<open>
  C1. For every line of the input that is not blank, the block added for the line is a
  heading if and only if the trimmed line is in the grammar of a heading line (groups of
  digits separated by dots, optional whitespace, optional free text, a final colon);
  every other such line gives a body paragraph holding the trimmed line. When the library
  raises nothing, a block is added.
\<close>

theorem heading_iff_grammar:
  assumes "line \<in> set (str_split newline (strip text_content))" and "strip line \<noteq> []"
  shows "(\<exists>b. format_line no_raise line = Inr b) \<and>
         (\<forall>lib b. format_line lib line = Inr b \<longrightarrow>
            (is_heading b \<longleftrightarrow> heading_grammar (strip line)) \<and>
            (\<not> heading_grammar (strip line) \<longrightarrow> b = body_par (strip line)))"
proof -
  from assms(1) have "newline \<notin> set line" by (rule str_split_no_sep)
  then have nl: "newline \<notin> set (strip line)" using strip_subset [of line] by auto
  have "is_heading (rendered line) \<longleftrightarrow> heading_grammar (strip line)"
    using assms(2) nl rendered_heading [of line] header_match_grammar [of "strip line"] by blast
  moreover have "\<not> heading_grammar (strip line) \<longrightarrow> rendered line = body_par (strip line)"
    using assms(2) nl header_match_grammar [of "strip line"] rendered_body [of line] by blast
  ultimately show ?thesis
    using format_line_no_raise [of line] by (auto dest!: format_line_Inr)
qed

theorem heading_iff_grammar_witness:
  "''Not a heading, no colon'' \<in> set (str_split newline (strip ''Not a heading, no colon''))
   \<and> strip ''Not a heading, no colon'' \<noteq> []
   \<and> format_line no_raise ''Not a heading, no colon'' = Inr (body_par ''Not a heading, no colon'')
   \<and> \<not> heading_grammar ''Not a heading, no colon''
   \<and> ''1.1 Background'' \<in> set (str_split newline (strip ''1.1 Background''))
   \<and> strip ''1.1 Background'' \<noteq> []
   \<and> format_line no_raise ''1.1 Background'' = Inr (body_par ''1.1 Background'')
   \<and> \<not> heading_grammar ''1.1 Background''
   \<and> ''2.1 Current State of Research:'' \<in> set (str_split newline (strip ''2.1 Current State of Research:''))
   \<and> strip ''2.1 Current State of Research:'' \<noteq> []
   \<and> format_line no_raise ''2.1 Current State of Research:''
       = Inr (heading_par 2 14 ''2.1 CURRENT STATE OF RESEARCH'')
   \<and> heading_grammar ''2.1 Current State of Research:''"
proof -
  have s: "strip ''Not a heading, no colon'' = ''Not a heading, no colon''"
    "strip ''1.1 Background'' = ''1.1 Background''"
    "strip ''2.1 Current State of Research:'' = ''2.1 Current State of Research:''"
    by (simp_all add: strip_def isspace_def)
  have l: "''Not a heading, no colon'' \<in> set (str_split newline ''Not a heading, no colon'')"
    "''1.1 Background'' \<in> set (str_split newline ''1.1 Background'')"
    "''2.1 Current State of Research:'' \<in> set (str_split newline ''2.1 Current State of Research:'')"
    by (simp_all add: newline_def)
  have f: "format_line no_raise ''Not a heading, no colon'' = Inr (body_par ''Not a heading, no colon'')"
    "format_line no_raise ''1.1 Background'' = Inr (body_par ''1.1 Background'')"
    "format_line no_raise ''2.1 Current State of Research:''
       = Inr (heading_par 2 14 ''2.1 CURRENT STATE OF RESEARCH'')"
    by (simp_all add: eval_defs)
  have h: "\<not> is_heading (body_par ''Not a heading, no colon'')"
    "\<not> is_heading (body_par ''1.1 Background'')"
    "is_heading (heading_par 2 14 ''2.1 CURRENT STATE OF RESEARCH'')"
    by (simp_all add: is_heading_def body_par_def heading_par_def)
  have "\<not> heading_grammar ''Not a heading, no colon''"
    using heading_iff_grammar [of "''Not a heading, no colon''" "''Not a heading, no colon''"]
      s(1) l(1) f(1) h(1) by (metis list.distinct(1))
  moreover have "\<not> heading_grammar ''1.1 Background''"
    using heading_iff_grammar [of "''1.1 Background''" "''1.1 Background''"]
      s(2) l(2) f(2) h(2) by (metis list.distinct(1))
  moreover have "heading_grammar ''2.1 Current State of Research:''"
    using heading_iff_grammar [of "''2.1 Current State of Research:''" "''2.1 Current State of Research:''"]
      s(3) l(3) f(3) h(3) by (metis list.distinct(1))
  ultimately show ?thesis using s l f by simp
qed


section \<open>Heading levels\<close>

text \<open>
  C4. For a line that the pattern matches, the heading has level 1 exactly when the
  matched numbering has no dot and level 2 when it has one or more, whatever the depth of
  the numbering: level 1 comes with 16 pt and level 2 with 14 pt. The lines \<open>3:\<close>,
  \<open>3.2:\<close> and \<open>3.2.1:\<close> are the instances of the witness.
\<close>

theorem heading_level:
  assumes "strip line \<noteq> []" and "header_match (strip line) = Some (n, g3)"
    and "format_line lib line = Inr b"
  shows "(CHR ''.'' \<notin> set n \<longrightarrow> b = heading_par 1 16 (n @ '' '' @ upper (strip g3)))
       \<and> (CHR ''.'' \<in> set n \<longrightarrow> b = heading_par 2 14 (n @ '' '' @ upper (strip g3)))
       \<and> (par_style b = Heading 1 \<longleftrightarrow> CHR ''.'' \<notin> set n)
       \<and> (par_style b = Heading 2 \<longleftrightarrow> CHR ''.'' \<in> set n)"
proof -
  from assms(3) have "b = rendered line" by (rule format_line_Inr)
  with format_line_heading [OF assms(2) assms(1)] show ?thesis
    by (simp add: heading_par_def)
qed

theorem heading_level_witness:
  "strip ''3:'' \<noteq> [] \<and> header_match (strip ''3:'') = Some (''3'', [])
   \<and> format_line no_raise ''3:'' = Inr (heading_par 1 16 ''3 '')
   \<and> strip ''3.2:'' \<noteq> [] \<and> header_match (strip ''3.2:'') = Some (''3.2'', [])
   \<and> format_line no_raise ''3.2:'' = Inr (heading_par 2 14 ''3.2 '')
   \<and> strip ''3.2.1:'' \<noteq> [] \<and> header_match (strip ''3.2.1:'') = Some (''3.2.1'', [])
   \<and> format_line no_raise ''3.2.1:'' = Inr (heading_par 2 14 ''3.2.1 '')
   \<and> strip ''3.2.1 Scope:'' \<noteq> [] \<and> header_match (strip ''3.2.1 Scope:'') = Some (''3.2.1'', ''Scope'')
   \<and> format_line no_raise ''3.2.1 Scope:'' = Inr (heading_par 2 14 ''3.2.1 SCOPE'')"
proof -
  have s: "strip ''3:'' = ''3:''" "strip ''3.2:'' = ''3.2:''" "strip ''3.2.1:'' = ''3.2.1:''"
    "strip ''3.2.1 Scope:'' = ''3.2.1 Scope:''"
    by (simp_all add: strip_def isspace_def)
  have e: "strip [] = []" "upper [] = []" "strip ''Scope'' = ''Scope''" "upper ''Scope'' = ''SCOPE''"
    by (simp_all add: strip_def isspace_def upper_def upper_char_def)
  have m: "header_match ''3:'' = Some (''3'', [])" "header_match ''3.2:'' = Some (''3.2'', [])"
    "header_match ''3.2.1:'' = Some (''3.2.1'', [])"
    "header_match ''3.2.1 Scope:'' = Some (''3.2.1'', ''Scope'')"
    by (simp_all add: eval_defs)
  from heading_level [of "''3:''" "''3''" "[]" no_raise "rendered ''3:''"]
    heading_level [of "''3.2:''" "''3.2''" "[]" no_raise "rendered ''3.2:''"]
    heading_level [of "''3.2.1:''" "''3.2.1''" "[]" no_raise "rendered ''3.2.1:''"]
    heading_level [of "''3.2.1 Scope:''" "''3.2.1''" "''Scope''" no_raise "rendered ''3.2.1 Scope:''"]
  show ?thesis by (simp add: s e m format_line_no_raise)
qed


text \<open>
  C5. A line that is only a numbering and the colon is a heading with the empty title:
  the text of the heading is the numbering followed by one space. This holds for a
  numbering of any depth; \<open>1:\<close> gives the text \<open>1\<close> and a space.
\<close>

theorem numbering_only_heading:
  assumes "gs \<noteq> []" and "list_all digits gs"
  shows "header_match (strip (dotted gs @ '':'')) = Some (dotted gs, [])
       \<and> format_line no_raise (dotted gs @ '':'') =
           Inr (if length gs = 1 then heading_par 1 16 (dotted gs @ '' '')
                else heading_par 2 14 (dotted gs @ '' ''))
       \<and> (\<forall>lib b. format_line lib (dotted gs @ '':'') = Inr b \<longrightarrow>
            is_heading b \<and> block_text b = dotted gs @ '' '')"
proof -
  from assms obtain g gs' where gs: "gs = g # gs'" "digits g" by (cases gs) auto
  then have "\<not> isspace (hd (dotted gs @ '':''))"
    using dotted_hd [of g gs'] by (auto simp: isdigit_def isspace_def Let_def)
  then have s: "strip (dotted gs @ '':'') = dotted gs @ '':''"
    by (intro strip_id) (simp add: colon_not_space)
  have m: "header_match (dotted gs @ '':'') = Some (dotted gs, [])"
    using assms by (rule header_match_dotted)
  have e: "strip [] = []" "upper [] = []" by (simp_all add: strip_def upper_def)
  have "count_list (dotted gs) (CHR ''.'') = length gs - 1"
    using assms(2) by (rule dotted_count)
  moreover from assms(1) have "0 < length gs" by simp
  ultimately have len: "count_list (dotted gs) (CHR ''.'') = 0 \<longleftrightarrow> length gs = 1"
    by arith
  have r: "rendered (dotted gs @ '':'') =
      (if length gs = 1 then heading_par 1 16 (dotted gs @ '' '')
       else heading_par 2 14 (dotted gs @ '' ''))"
    by (simp add: rendered_def s m e len)
  show ?thesis
    by (auto simp: s m r format_line_no_raise is_heading_def block_text_def heading_par_def
        styled_run_def dest!: format_line_Inr)
qed

theorem numbering_only_heading_witness:
  "[''1''] \<noteq> [] \<and> list_all digits [''1'']
   \<and> header_match ''1:'' = Some (''1'', [])
   \<and> format_line no_raise ''1:'' = Inr (heading_par 1 16 ''1 '')
   \<and> block_text (heading_par 1 16 ''1 '') = ''1 ''"
  using numbering_only_heading [of "[''1'']"]
  by (simp add: digits_def isdigit_def strip_def isspace_def block_text_def heading_par_def styled_run_def)


section \<open>The document as a whole\<close>

text \<open>
  C2. The blocks of the document for the text of scenario A and the topic \<open>Test\<close>, when
  the library raises nothing. The pattern leaves the dot after the first numbering to the
  title, so the first heading reads \<open>1 . INTRODUCTION\<close> and not \<open>1 INTRODUCTION\<close>; the
  other eight blocks are the ones of the scenario.
\<close>

theorem scenario_A_blocks:
  "text_to_word_buffer no_raise
     (Some (''1. Introduction:'' @ [newline, newline] @ ''This is body text.'' @ [newline, newline]
            @ ''1.1 Background:'' @ [newline] @ ''More body text.'')) ''Test''
   = (Some (page [title_par ''TEST'', blank_par, blank_par,
                  heading_par 1 16 ''1 . INTRODUCTION'', blank_par,
                  body_par ''This is body text.'', blank_par,
                  heading_par 2 14 ''1.1 BACKGROUND'', body_par ''More body text.'']), None)
   \<and> block_text (heading_par 1 16 ''1 . INTRODUCTION'') \<noteq> ''1 INTRODUCTION''"
  by (simp add: text_to_word_buffer_no_raise scenario_defs block_text_def heading_par_def styled_run_def)


text \<open>
  C3, as stated, counts every block but the title. For the text \<open>a\<close> that is three
  blocks, the two blank paragraphs after the title and the body paragraph, for one line.
\<close>

theorem extra_blank_blocks_counterexample:
  "text_to_word_buffer no_raise (Some ''a'') ''T''
     = (Some (page [title_par ''T'', blank_par, blank_par, body_par ''a'']), None)
   \<and> length (tl (paragraphs (page [title_par ''T'', blank_par, blank_par, body_par ''a''])))
       \<noteq> length (str_split newline (strip ''a''))"
  by (simp add: text_to_word_buffer_no_raise scenario_defs paragraphs_page)


text \<open>
  C3, amended. The document starts with the title and two blank paragraphs; after these
  three blocks there is exactly one block for each line of the trimmed text, in order: a
  blank block for a blank line, a heading or a body paragraph for any other line.
\<close>

theorem block_count:
  assumes "text_to_word_buffer lib (Some txt) topic = (Some d, e)"
  shows "length (paragraphs d) = 3 + length (str_split newline (strip txt))
       \<and> take 3 (paragraphs d) = [title_par (upper topic), blank_par, blank_par]
       \<and> list_all2 (\<lambda>line b. format_line lib line = Inr b
                      \<and> (strip line = [] \<longrightarrow> is_blank b)
                      \<and> (strip line \<noteq> [] \<longrightarrow> \<not> is_blank b \<and> (is_heading b \<or> is_body b)))
           (str_split newline (strip txt)) (drop 3 (paragraphs d))"
proof -
  let ?ls = "str_split newline (strip txt)"
  from text_to_word_buffer_Some [OF assms]
  have d: "paragraphs d = [title_par (upper topic), blank_par, blank_par] @ map rendered ?ls"
    and f: "list_all (\<lambda>l. format_line lib l = Inr (rendered l)) ?ls"
    by (simp_all add: paragraphs_page)
  have "list_all2 (\<lambda>line b. format_line lib line = Inr b
                      \<and> (strip line = [] \<longrightarrow> is_blank b)
                      \<and> (strip line \<noteq> [] \<longrightarrow> \<not> is_blank b \<and> (is_heading b \<or> is_body b)))
           ?ls (map rendered ?ls)"
    using f rendered_kind by (simp add: list_all2_map2 list_all2_same list_all_iff)
  with d show ?thesis by simp
qed

theorem block_count_witness:
  "text_to_word_buffer no_raise (Some (''1:'' @ [newline, newline] @ ''b'')) ''T''
     = (Some (page [title_par ''T'', blank_par, blank_par,
                    heading_par 1 16 ''1 '', blank_par, body_par ''b'']), None)
   \<and> length (paragraphs (page [title_par ''T'', blank_par, blank_par,
                    heading_par 1 16 ''1 '', blank_par, body_par ''b'']))
       = 3 + length (str_split newline (strip (''1:'' @ [newline, newline] @ ''b'')))"
proof -
  have t: "text_to_word_buffer no_raise (Some (''1:'' @ [newline, newline] @ ''b'')) ''T''
     = (Some (page [title_par ''T'', blank_par, blank_par,
                    heading_par 1 16 ''1 '', blank_par, body_par ''b'']), None)"
    by (simp add: text_to_word_buffer_no_raise scenario_defs)
  from block_count [OF t] t show ?thesis by simp
qed


text \<open>
  C8. The lines are the pieces of the trimmed text between the line feeds, so nothing
  inside the text is dropped, and each gives its block: a blank paragraph when the
  trimmed line is empty, and for a body line a paragraph whose text is the trimmed line.
  Unless the whole text is blank, the first and the last of these blocks are not blank:
  the blank lines at both ends of the text are gone.
\<close>

theorem lines_trimmed:
  assumes "text_to_word_buffer lib (Some txt) topic = (Some d, e)"
  shows "list_all2 (\<lambda>line b. format_line lib line = Inr b
                      \<and> (strip line = [] \<longrightarrow> b = blank_par)
                      \<and> (strip line \<noteq> [] \<and> \<not> is_heading b \<longrightarrow>
                           b = body_par (strip line) \<and> block_text b = strip line))
           (str_split newline (strip txt)) (drop 3 (paragraphs d))
       \<and> str_join newline (str_split newline (strip txt)) = strip txt
       \<and> (strip txt = [] \<or>
            (\<not> is_blank (hd (drop 3 (paragraphs d))) \<and> \<not> is_blank (last (paragraphs d))))"
proof -
  let ?ls = "str_split newline (strip txt)"
  from text_to_word_buffer_Some [OF assms]
  have d: "paragraphs d = [title_par (upper topic), blank_par, blank_par] @ map rendered ?ls"
    and f: "list_all (\<lambda>l. format_line lib l = Inr (rendered l)) ?ls"
    by (simp_all add: paragraphs_page)
  have 1: "list_all2 (\<lambda>line b. format_line lib line = Inr b
                      \<and> (strip line = [] \<longrightarrow> b = blank_par)
                      \<and> (strip line \<noteq> [] \<and> \<not> is_heading b \<longrightarrow>
                           b = body_par (strip line) \<and> block_text b = strip line))
           ?ls (map rendered ?ls)"
    using f rendered_kind rendered_body_text
    by (simp add: list_all2_map2 list_all2_same list_all_iff)
  have nonempty: "?ls \<noteq> []" by (rule str_split_not_Nil)
  have 3: "strip txt = [] \<or>
            (\<not> is_blank (hd (map rendered ?ls)) \<and> \<not> is_blank (last (map rendered ?ls)))"
    using first_last_line_not_blank [of "txt"] nonempty rendered_kind
    by (auto simp: hd_map last_map)
  from nonempty have "last (paragraphs d) = last (map rendered ?ls)" by (simp add: d)
  with 1 3 d show ?thesis by (simp add: str_join_split)
qed

theorem lines_trimmed_witness:
  "text_to_word_buffer no_raise
      (Some ([newline] @ ''  a b  '' @ [newline] @ ''  '' @ [newline] @ '' 2. c '' @ [newline, newline])) ''T''
     = (Some (page [title_par ''T'', blank_par, blank_par,
                    body_par ''a b'', blank_par, body_par ''2. c'']), None)
   \<and> str_split newline (strip ([newline] @ ''  a b  '' @ [newline] @ ''  '' @ [newline] @ '' 2. c '' @ [newline, newline]))
       = [''a b  '', ''  '', '' 2. c'']
   \<and> \<not> is_blank (hd (drop 3 (paragraphs (page [title_par ''T'', blank_par, blank_par,
                    body_par ''a b'', blank_par, body_par ''2. c'']))))
   \<and> \<not> is_blank (last (paragraphs (page [title_par ''T'', blank_par, blank_par,
                    body_par ''a b'', blank_par, body_par ''2. c''])))"
proof -
  let ?t = "[newline] @ ''  a b  '' @ [newline] @ ''  '' @ [newline] @ '' 2. c '' @ [newline, newline]"
  let ?d = "page [title_par ''T'', blank_par, blank_par, body_par ''a b'', blank_par, body_par ''2. c'']"
  have t: "text_to_word_buffer no_raise (Some ?t) ''T'' = (Some ?d, None)"
    by (simp add: text_to_word_buffer_no_raise scenario_defs)
  have s: "str_split newline (strip ?t) = [''a b  '', ''  '', '' 2. c'']"
    by (simp add: scenario_defs)
  have n: "strip ?t \<noteq> []"
    by (simp add: scenario_defs)
  from lines_trimmed [OF t]
  have "strip ?t = [] \<or> (\<not> is_blank (hd (drop 3 (paragraphs ?d))) \<and> \<not> is_blank (last (paragraphs ?d)))"
    by blast
  with n have "\<not> is_blank (hd (drop 3 (paragraphs ?d))) \<and> \<not> is_blank (last (paragraphs ?d))"
    by blast
  with t s show ?thesis by blast
qed


text \<open>
  C10. A text that is empty or all whitespace has one line, the empty one. With a topic
  that is not empty the formatter returns a document and no error whenever the library
  raises nothing, and every document it returns holds four blocks: the title, its two
  blank paragraphs and one more blank paragraph.
\<close>

theorem blank_text_one_blank_block:
  assumes "list_all isspace txt" and "topic \<noteq> []"
  shows "str_split newline (strip txt) = [[]]
       \<and> text_to_word_buffer no_raise (Some txt) topic
           = (Some (page [title_par (upper topic), blank_par, blank_par, blank_par]), None)
       \<and> (\<forall>lib d e. text_to_word_buffer lib (Some txt) topic = (Some d, e) \<longrightarrow>
             e = None \<and> paragraphs d = [title_par (upper topic), blank_par, blank_par, blank_par])"
proof -
  from assms(1) have s: "strip txt = []" by (simp add: strip_Nil_iff)
  have r: "rendered [] = blank_par" by (simp add: rendered_def strip_def)
  have "e = None \<and> paragraphs d = [title_par (upper topic), blank_par, blank_par, blank_par]"
    if "text_to_word_buffer lib (Some txt) topic = (Some d, e)" for lib d e
    using text_to_word_buffer_Some(1,3) [OF that] by (simp add: s r paragraphs_page)
  with assms(2) show ?thesis
    by (simp add: s r text_to_word_buffer_no_raise)
qed

theorem blank_text_one_blank_block_witness:
  "list_all isspace ('' '' @ [newline]) \<and> ''T'' \<noteq> []
   \<and> text_to_word_buffer no_raise (Some ('' '' @ [newline])) ''T''
       = (Some (page [title_par ''T'', blank_par, blank_par, blank_par]), None)
   \<and> list_all isspace [] 
   \<and> text_to_word_buffer no_raise (Some []) ''T''
       = (Some (page [title_par ''T'', blank_par, blank_par, blank_par]), None)"
  using blank_text_one_blank_block [of "'' '' @ [newline]" "''T''"]
    blank_text_one_blank_block [of "[]" "''T''"]
  by (simp add: isspace_def newline_def upper_def upper_char_def)


section \<open>Errors\<close>

text \<open>
  C6. When the report request returns an error, it returns no text with it, and the
  request handler shows that message and stops: the formatter is not called, no download
  is offered, and the message is a generation error, never a formatting error.
\<close>

theorem generation_error_stops:
  assumes "topic \<noteq> []" and "get_gemini_model e = Inr model"
    and "generate_report_with_gemini topic model = (report_text, Some msg)"
  shows "report_text = None
       \<and> main e topic True = [Show_info, Called_generate topic, Show_error msg]
       \<and> (\<forall>t s. Called_formatter t s \<notin> set (main e topic True))
       \<and> (\<forall>f d m. Download_button f d m \<notin> set (main e topic True))
       \<and> (\<exists>x. msg = ''Report Generation Error: '' @ x @ ''. Please check your API key and input.'')
       \<and> (\<forall>y. msg \<noteq> ''Word Conversion Error: '' @ y)"
proof -
  from generation_error_shape [OF assms(3)] obtain x where r: "report_text = None"
    and msg: "msg = ''Report Generation Error: '' @ x @ ''. Please check your API key and input.''"
    by auto
  from msg have t: "truthy (Some msg) = Some msg" by (simp add: truthy_def)
  have m: "main e topic True = [Show_info, Called_generate topic, Show_error msg]"
    using assms t by (simp add: main_def)
  from msg have "\<forall>y. msg \<noteq> ''Word Conversion Error: '' @ y" by simp
  with r m msg show ?thesis by simp
qed

theorem generation_error_stops_witness:
  "''T'' \<noteq> []
   \<and> get_gemini_model \<lparr>api_key = Some ''k'', configure = (\<lambda>k. Inr (\<lambda>p. Inl ''quota'')),
                        docx_lib = no_raise\<rparr> = Inr (\<lambda>p. Inl ''quota'')
   \<and> generate_report_with_gemini ''T'' (\<lambda>p. Inl ''quota'')
       = (None, Some ''Report Generation Error: quota. Please check your API key and input.'')
   \<and> main \<lparr>api_key = Some ''k'', configure = (\<lambda>k. Inr (\<lambda>p. Inl ''quota'')),
            docx_lib = no_raise\<rparr> ''T'' True
       = [Show_info, Called_generate ''T'',
          Show_error ''Report Generation Error: quota. Please check your API key and input.'']"
proof -
  let ?e = "\<lparr>api_key = Some ''k'', configure = (\<lambda>k. Inr (\<lambda>p. Inl ''quota'')), docx_lib = no_raise\<rparr>"
  have g: "get_gemini_model ?e = Inr (\<lambda>p. Inl ''quota'')"
    by (simp add: get_gemini_model_def)
  have r: "generate_report_with_gemini ''T'' (\<lambda>p. Inl ''quota'')
       = (None, Some ''Report Generation Error: quota. Please check your API key and input.'')"
    by (simp add: generate_report_with_gemini_def)
  have n: "''T'' \<noteq> []" by simp
  from generation_error_stops [OF n g r] g r show ?thesis by simp
qed


text \<open>
  C7. An exception raised while the document is built is caught in the formatter, which
  returns no payload and a formatting error; this message is never a generation error,
  and the request handler shows it and offers no download.
\<close>

theorem formatting_error_caught:
  assumes "build_document lib text_content topic = Inl x"
  shows "text_to_word_buffer lib text_content topic = (None, Some (''Word Conversion Error: '' @ x))
       \<and> (\<forall>y. ''Word Conversion Error: '' @ x
                 \<noteq> ''Report Generation Error: '' @ y @ ''. Please check your API key and input.'')
       \<and> (\<forall>e model. topic \<noteq> [] \<and> docx_lib e = lib \<and> get_gemini_model e = Inr model
              \<and> generate_report_with_gemini topic model = (text_content, None) \<longrightarrow>
            main e topic True = [Show_info, Called_generate topic, Called_formatter text_content topic,
                                 Show_error (''Word Conversion Error: '' @ x)]
            \<and> (\<forall>f d m. Download_button f d m \<notin> set (main e topic True)))"
proof -
  have w: "text_to_word_buffer lib text_content topic = (None, Some (''Word Conversion Error: '' @ x))"
    using assms by (simp add: text_to_word_buffer_def)
  have t: "truthy (Some (''Word Conversion Error: '' @ x)) = Some (''Word Conversion Error: '' @ x)"
    by (simp add: truthy_def)
  have n: "truthy None = None" by (simp add: truthy_def)
  have "main e topic True = [Show_info, Called_generate topic, Called_formatter text_content topic,
                                 Show_error (''Word Conversion Error: '' @ x)]"
    if "topic \<noteq> []" "docx_lib e = lib" "get_gemini_model e = Inr model"
       "generate_report_with_gemini topic model = (text_content, None)" for e model
    using that w t n by (simp add: main_def)
  with w show ?thesis by simp
qed

theorem formatting_error_caught_witness:
  "build_document (\<lambda>c. if c = AddParagraph ''a'' then Some ''boom'' else None) (Some ''a'') ''T''
     = Inl ''boom''
   \<and> text_to_word_buffer (\<lambda>c. if c = AddParagraph ''a'' then Some ''boom'' else None) (Some ''a'') ''T''
     = (None, Some ''Word Conversion Error: boom'')
   \<and> build_document no_raise (Some ''a'') [] = Inl ''list index out of range''
   \<and> text_to_word_buffer no_raise (Some ''a'') []
     = (None, Some ''Word Conversion Error: list index out of range'')
   \<and> main \<lparr>api_key = Some ''k'', configure = (\<lambda>k. Inr (\<lambda>p. Inr ''a'')),
            docx_lib = (\<lambda>c. if c = AddParagraph ''a'' then Some ''boom'' else None)\<rparr> ''T'' True
     = [Show_info, Called_generate ''T'', Called_formatter (Some ''a'') ''T'',
        Show_error ''Word Conversion Error: boom'']"
proof -
  let ?lib = "\<lambda>c. if c = AddParagraph ''a'' then Some ''boom'' else None"
  let ?e = "\<lparr>api_key = Some ''k'', configure = (\<lambda>k. Inr (\<lambda>p. Inr ''a'')), docx_lib = ?lib\<rparr>"
  have b1: "build_document ?lib (Some ''a'') ''T'' = Inl ''boom''"
    by (simp add: build_document_def Document_def title_block_eq blank_eq and_then_def
        format_line_def body_block_eq header_match_def header_matches_def isdigit_def
        strip_def isspace_def newline_def Let_def)
  have b2: "build_document no_raise (Some ''a'') [] = Inl ''list index out of range''"
    by (simp add: build_document_def Document_def title_block_eq and_then_def no_raise_def)
  have g: "''T'' \<noteq> [] \<and> docx_lib ?e = ?lib \<and> get_gemini_model ?e = Inr (\<lambda>p. Inr ''a'')
       \<and> generate_report_with_gemini ''T'' (\<lambda>p. Inr ''a'') = (Some ''a'', None)"
    by (simp add: get_gemini_model_def generate_report_with_gemini_def)
  from formatting_error_caught [OF b1] g
  have "main ?e ''T'' True = [Show_info, Called_generate ''T'', Called_formatter (Some ''a'') ''T'',
        Show_error (''Word Conversion Error: '' @ ''boom'')]"
    by blast
  with formatting_error_caught [OF b1] formatting_error_caught [OF b2] b1 b2 show ?thesis
    by simp
qed


section \<open>The download file name\<close>

text \<open>
  C9. For every topic, the name of the downloaded file is the topic with each space and
  each forward slash replaced by an underscore, followed by \<open>_report.docx\<close>; the topic
  \<open>A/B Test\<close> gives \<open>A_B_Test_report.docx\<close>. This is the name of every download button
  that the request handler shows, and it shows one, with that name and the payload of the
  formatter, whenever both stages succeed.
\<close>

theorem filename_underscores:
  "filename topic =
     map (\<lambda>c. if c = CHR '' '' \<or> c = CHR ''/'' then CHR ''_'' else c) topic @ ''_report.docx''
   \<and> filename ''A/B Test'' = ''A_B_Test_report.docx''
   \<and> (\<forall>e pressed f d m. Download_button f d m \<in> set (main e topic pressed) \<longrightarrow>
          f = map (\<lambda>c. if c = CHR '' '' \<or> c = CHR ''/'' then CHR ''_'' else c) topic
                @ ''_report.docx'')
   \<and> (\<forall>e model report_text payload.
          topic \<noteq> [] \<and> get_gemini_model e = Inr model
          \<and> generate_report_with_gemini topic model = (report_text, None)
          \<and> text_to_word_buffer (docx_lib e) report_text topic = (Some payload, None) \<longrightarrow>
          main e topic True =
            [Show_info, Called_generate topic, Called_formatter report_text topic, Show_success,
             Download_button
               (map (\<lambda>c. if c = CHR '' '' \<or> c = CHR ''/'' then CHR ''_'' else c) topic
                  @ ''_report.docx'')
               (Some payload)
               ''application/vnd.openxmlformats-officedocument.wordprocessingml.document'',
             word_count report_text])"
proof -
  have n: "filename topic =
     map (\<lambda>c. if c = CHR '' '' \<or> c = CHR ''/'' then CHR ''_'' else c) topic @ ''_report.docx''"
    by (rule filename_eq)
  have x: "filename ''A/B Test'' = ''A_B_Test_report.docx''"
    by (simp add: filename_def replace_def)
  have d: "f = filename topic" if "Download_button f d m \<in> set (main e topic pressed)"
    for e pressed f d m
    using that by (rule main_download_name)
  have m: "main e topic True =
           [Show_info, Called_generate topic, Called_formatter report_text topic, Show_success,
            Download_button (filename topic) (Some payload)
              ''application/vnd.openxmlformats-officedocument.wordprocessingml.document'',
            word_count report_text]"
    if "topic \<noteq> [] \<and> get_gemini_model e = Inr model
          \<and> generate_report_with_gemini topic model = (report_text, None)
          \<and> text_to_word_buffer (docx_lib e) report_text topic = (Some payload, None)"
    for e model report_text payload
    using that by (intro main_success) auto
  from d m show ?thesis unfolding n [symmetric] x by (intro conjI allI impI) (rule refl | blast)+
qed

theorem filename_underscores_witness:
  "''A/B Test'' \<noteq> []
   \<and> get_gemini_model \<lparr>api_key = Some ''k'', configure = (\<lambda>k. Inr (\<lambda>p. Inr ''a b'')),
                        docx_lib = no_raise\<rparr> = Inr (\<lambda>p. Inr ''a b'')
   \<and> generate_report_with_gemini ''A/B Test'' (\<lambda>p. Inr ''a b'') = (Some ''a b'', None)
   \<and> text_to_word_buffer no_raise (Some ''a b'') ''A/B Test''
       = (Some (page [title_par ''A/B TEST'', blank_par, blank_par, body_par ''a b'']), None)
   \<and> main \<lparr>api_key = Some ''k'', configure = (\<lambda>k. Inr (\<lambda>p. Inr ''a b'')),
            docx_lib = no_raise\<rparr> ''A/B Test'' True
       = [Show_info, Called_generate ''A/B Test'', Called_formatter (Some ''a b'') ''A/B Test'',
          Show_success,
          Download_button ''A_B_Test_report.docx''
            (Some (page [title_par ''A/B TEST'', blank_par, blank_par, body_par ''a b'']))
            ''application/vnd.openxmlformats-officedocument.wordprocessingml.document'',
          Show_word_count 2]"
proof -
  let ?e = "\<lparr>api_key = Some ''k'', configure = (\<lambda>k. Inr (\<lambda>p. Inr ''a b'')), docx_lib = no_raise\<rparr>"
  let ?d = "page [title_par ''A/B TEST'', blank_par, blank_par, body_par ''a b'']"
  have g: "get_gemini_model ?e = Inr (\<lambda>p. Inr ''a b'')"
    by (simp add: get_gemini_model_def)
  have r: "generate_report_with_gemini ''A/B Test'' (\<lambda>p. Inr ''a b'') = (Some ''a b'', None)"
    by (simp add: generate_report_with_gemini_def)
  have t: "text_to_word_buffer no_raise (Some ''a b'') ''A/B Test'' = (Some ?d, None)"
    by (simp add: text_to_word_buffer_no_raise scenario_defs)
  have w: "word_count (Some ''a b'') = Show_word_count 2"
    by (simp add: word_count_def isspace_def)
  have c: "map (\<lambda>c. if c = CHR '' '' \<or> c = CHR ''/'' then CHR ''_'' else c) ''A/B Test''
             @ ''_report.docx'' = ''A_B_Test_report.docx''"
    by simp
  have "main ?e ''A/B Test'' True =
            [Show_info, Called_generate ''A/B Test'', Called_formatter (Some ''a b'') ''A/B Test'',
             Show_success,
             Download_button
               (map (\<lambda>c. if c = CHR '' '' \<or> c = CHR ''/'' then CHR ''_'' else c) ''A/B Test''
                  @ ''_report.docx'')
               (Some ?d)
               ''application/vnd.openxmlformats-officedocument.wordprocessingml.document'',
             word_count (Some ''a b'')]"
    using filename_underscores [of "''A/B Test''"] g r t by auto
  with g r t w c show ?thesis by simp
qed

end
